theory Spec2Isabelle
  imports Main "HOL-Library.Sublist"
begin

section \<open>The HAR analyzer of \<^verbatim>\<open>scripts/analyze-har.py\<close>\<close>

text \<open>
  The script loads a HAR document with \<^verbatim>\<open>json.load\<close>, walks \<^verbatim>\<open>log.entries\<close> once,
  collecting (name, size) pairs in four lists and a running total, sorts three of the
  lists, and prints a report that ends with the timings of \<^verbatim>\<open>log.pages[0]\<close>.

  The model takes the parsed document as its input. A dictionary of the document is a
  record with one optional field for each key the script reads: \<open>None\<close> is an absent key.
  A field that is present has the type the HAR format gives it (text, integer, object,
  array). A Python \<^verbatim>\<open>str\<close> is a \<open>string\<close>, one \<open>char\<close> for one character.

  A run ends normally or with the first exception raised: a KeyError for an absent
  required key, an IndexError for an empty list of pages, an OverflowError for a
  division whose result is beyond the largest float. What was printed before stays
  printed.
\<close>

subsection \<open>Python's string operations\<close>

text \<open>\<^verbatim>\<open>s.startswith(p)\<close>\<close>

fun startswith :: "string \<Rightarrow> string \<Rightarrow> bool" where
  "startswith [] s = True"
| "startswith (p # ps) [] = False"
| "startswith (p # ps) (c # cs) = (p = c \<and> startswith ps cs)"

text \<open>\<^verbatim>\<open>p in s\<close> for two strings: \<open>p\<close> occurs in \<open>s\<close> at some position.\<close>

fun str_in :: "string \<Rightarrow> string \<Rightarrow> bool" where
  "str_in p [] = (p = [])"
| "str_in p (c # cs) = (startswith p (c # cs) \<or> str_in p cs)"

text \<open>\<^verbatim>\<open>s.split(sep)\<close> for a separator of one character; the result is never empty.\<close>

fun split_on :: "char \<Rightarrow> string \<Rightarrow> string list" where
  "split_on sep [] = [[]]"
| "split_on sep (c # cs) =
     (if c = sep then [] # split_on sep cs
      else (case split_on sep cs of
              [] \<Rightarrow> [[c]]
            | w # ws \<Rightarrow> (c # w) # ws))"

text \<open>\<^verbatim>\<open>url.split('/')[-1][:50]\<close>, the name a primary bucket stores.\<close>

definition display_name :: "string \<Rightarrow> string" where
  "display_name url = take 50 (last (split_on CHR ''/'' url))"

text \<open>
  \<^verbatim>\<open>f"{s:w}"\<close> for a string \<open>s\<close>: \<open>w\<close> is a minimum width; a shorter string is
  left-aligned and filled with spaces, a longer one is printed whole.
\<close>

definition fmt_str :: "nat \<Rightarrow> string \<Rightarrow> string" where
  "fmt_str w s = s @ replicate (w - length s) CHR '' ''"

subsection \<open>The document\<close>

record content =
  cont_mimeType :: "string option"
  cont_size :: "int option"

record response =
  resp_bodySize :: "int option"
  resp_content :: "content option"

record request =
  req_url :: "string option"

record entry =
  entry_request :: "request option"
  entry_response :: "response option"

record pageTimings =
  pt_onContentLoad :: "int option"
  pt_onLoad :: "int option"

record page =
  page_pageTimings :: "pageTimings option"

record log =
  log_entries :: "entry list option"
  log_pages :: "page list option"

record har =
  har_log :: "log option"

datatype py_error = KeyError string | IndexError | OverflowError

subsection \<open>The loop over the entries (lines 20 to 40)\<close>

text \<open>The four lists and the total that the loop updates.\<close>

record acc =
  js_files :: "(string \<times> int) list"
  css_files :: "(string \<times> int) list"
  font_files :: "(string \<times> int) list"
  google_fonts :: "(string \<times> int) list"
  total_size :: int

definition init :: acc where
  "init = \<lparr>js_files = [], css_files = [], font_files = [], google_fonts = [], total_size = 0\<rparr>"

text \<open>Line 21: \<^verbatim>\<open>url = entry['request']['url']\<close>.\<close>

definition get_url :: "entry \<Rightarrow> py_error + string" where
  "get_url e =
     (case entry_request e of
        None \<Rightarrow> Inl (KeyError ''request'')
      | Some rq \<Rightarrow>
          (case req_url rq of
             None \<Rightarrow> Inl (KeyError ''url'')
           | Some u \<Rightarrow> Inr u))"

text \<open>\<^verbatim>\<open>entry['response']\<close> of lines 22 and 23.\<close>

definition get_response :: "entry \<Rightarrow> py_error + response" where
  "get_response e =
     (case entry_response e of
        None \<Rightarrow> Inl (KeyError ''response'')
      | Some rs \<Rightarrow> Inr rs)"

text \<open>Line 23: \<^verbatim>\<open>content = entry['response'].get('content', {})\<close>.\<close>

definition get_content :: "response \<Rightarrow> content" where
  "get_content rs =
     (case resp_content rs of
        None \<Rightarrow> \<lparr>cont_mimeType = None, cont_size = None\<rparr>
      | Some c \<Rightarrow> c)"

text \<open>Line 24: \<^verbatim>\<open>mime_type = content.get('mimeType', '')\<close>.\<close>

definition get_mime_type :: "response \<Rightarrow> string" where
  "get_mime_type rs =
     (case cont_mimeType (get_content rs) of None \<Rightarrow> [] | Some m \<Rightarrow> m)"

text \<open>
  Lines 22, 27 and 28: \<^verbatim>\<open>size = entry['response'].get('bodySize', 0)\<close>, then
  \<^verbatim>\<open>if size < 0: size = content.get('size', 0)\<close>.
\<close>

definition get_size :: "response \<Rightarrow> int" where
  "get_size rs =
     (let size = (case resp_bodySize rs of None \<Rightarrow> 0 | Some b \<Rightarrow> b)
      in if size < 0
         then (case cont_size (get_content rs) of None \<Rightarrow> 0 | Some s \<Rightarrow> s)
         else size)"

text \<open>Lines 30 to 40: the total and the chain of \<^verbatim>\<open>if\<close> and \<^verbatim>\<open>elif\<close>.\<close>

definition categorize :: "acc \<Rightarrow> string \<Rightarrow> string \<Rightarrow> int \<Rightarrow> acc" where
  "categorize st url mime_type sz =
     (let st1 = st\<lparr>total_size := total_size st + sz\<rparr>
      in if str_in ''.js'' url \<or> str_in ''javascript'' mime_type
         then st1\<lparr>js_files := js_files st1 @ [(display_name url, sz)]\<rparr>
         else if str_in ''.css'' url \<or> str_in ''text/css'' mime_type
         then st1\<lparr>css_files := css_files st1 @ [(display_name url, sz)]\<rparr>
         else if list_ex (\<lambda>ext. str_in ext url) [''.ttf'', ''.woff'', ''.woff2'', ''.otf'']
         then st1\<lparr>font_files := font_files st1 @ [(display_name url, sz)]\<rparr>
         else if str_in ''fonts.googleapis.com'' url \<or> str_in ''fonts.gstatic.com'' url
         then st1\<lparr>google_fonts := google_fonts st1 @ [(take 80 url, sz)]\<rparr>
         else st1)"

text \<open>One pass of the loop body; a missing required key ends the run.\<close>

definition process_entry :: "acc \<Rightarrow> entry \<Rightarrow> py_error + acc" where
  "process_entry st e =
     (case get_url e of
        Inl err \<Rightarrow> Inl err
      | Inr url \<Rightarrow>
          (case get_response e of
             Inl err \<Rightarrow> Inl err
           | Inr rs \<Rightarrow> Inr (categorize st url (get_mime_type rs) (get_size rs))))"

fun loop :: "acc \<Rightarrow> entry list \<Rightarrow> py_error + acc" where
  "loop st [] = Inr st"
| "loop st (e # es) =
     (case process_entry st e of
        Inl err \<Rightarrow> Inl err
      | Inr st' \<Rightarrow> loop st' es)"

subsection \<open>Sorting and printing (lines 43 to 85)\<close>

text \<open>
  \<^verbatim>\<open>xs.sort(key=lambda x: x[1], reverse=True)\<close>: the list is reversed, sorted by a
  stable ascending sort on the second component, and reversed again, so that pairs of
  equal size keep their order.
\<close>

definition sort_desc :: "(string \<times> int) list \<Rightarrow> (string \<times> int) list" where
  "sort_desc xs = rev (sort_key snd (rev xs))"

datatype category = JavaScript | CSS | Font | GoogleFont

text \<open>
  \<^verbatim>\<open>x / d\<close> for two integers, with \<open>d\<close> positive: the float nearest to the quotient. When
  that is beyond the largest float, which is when the absolute value of \<open>x\<close> is at least
  \<open>d\<close> times \<open>2 ^ 1024 - 2 ^ 970\<close>, the division raises OverflowError. Formatting the
  float raises nothing. The float is kept as the integer \<open>x\<close> it is computed from.
\<close>

definition true_div :: "int \<Rightarrow> int \<Rightarrow> py_error + int" where
  "true_div x d = (if d * (2 ^ 1024 - 2 ^ 970) \<le> \<bar>x\<bar> then Inl OverflowError else Inr x)"

text \<open>
  A printed line. A number that the script divides and formats as a float
  (\<^verbatim>\<open>{size/1024:8.1f}\<close>, \<^verbatim>\<open>{total_size / 1024:.0f}\<close>, \<^verbatim>\<open>{content_load:.2f}\<close>) is kept as
  the integer it is computed from: bytes for sizes, milliseconds for timings. The text of
  a name column is kept as printed.
\<close>

datatype line =
    Header
  | Rule
  | TotalSize int
  | SectionHead category nat int
  | GoogleHead nat
  | Row category string int
  | FormatHead
  | Woff2Files nat
  | TtfFiles nat
  | MetricsHead
  | DomContentLoaded int
  | PageLoadComplete int

text \<open>
  A \<^verbatim>\<open>print\<close> whose f-string divides a number of bytes by 1024: the string is built
  first, so an OverflowError leaves the line unprinted.
\<close>

definition print_kb :: "(int \<Rightarrow> line) \<Rightarrow> int \<Rightarrow> py_error + line" where
  "print_kb mk x = (case true_div x 1024 of Inl err \<Rightarrow> Inl err | Inr kb \<Rightarrow> Inr (mk kb))"

text \<open>The rows of one section: \<^verbatim>\<open>print(f"  {name:45} {size/1024:8.1f}KB")\<close> for each pair.\<close>

definition print_rows ::
  "category \<Rightarrow> nat \<Rightarrow> (string \<times> int) list \<Rightarrow> (py_error + line) list" where
  "print_rows c w rows = map (\<lambda>(name, size). print_kb (Row c (fmt_str w name)) size) rows"

text \<open>
  Lines 43 to 76: the sorts and the \<^verbatim>\<open>print\<close> statements before the page is read, in
  order; each one prints its line or raises.
\<close>

definition report :: "acc \<Rightarrow> (py_error + line) list" where
  "report st =
     (let js = sort_desc (js_files st);
          css = sort_desc (css_files st);
          font = sort_desc (font_files st);
          gf = google_fonts st
      in [Inr Header, Inr Rule, print_kb TotalSize (total_size st)]
         @ [print_kb (SectionHead JavaScript (length js)) (sum_list (map snd js))]
         @ print_rows JavaScript 45 (take 10 js)
         @ [print_kb (SectionHead CSS (length css)) (sum_list (map snd css))]
         @ print_rows CSS 45 (take 5 css)
         @ [print_kb (SectionHead Font (length font)) (sum_list (map snd font))]
         @ print_rows Font 45 font
         @ (if gf \<noteq> [] then Inr (GoogleHead (length gf)) # print_rows GoogleFont 75 (take 5 gf)
            else [])
         @ [Inr FormatHead,
            Inr (Woff2Files (length (filter (\<lambda>f. str_in ''.woff2'' (fst f)) font))),
            Inr (TtfFiles (length (filter (\<lambda>f. str_in ''.ttf'' (fst f)) font)))])"

text \<open>
  Running the statements in order: the lines printed up to the first statement that
  raises, and its exception.
\<close>

fun run_prints :: "(py_error + line) list \<Rightarrow> line list \<times> py_error option" where
  "run_prints [] = ([], None)"
| "run_prints (Inl err # ps) = ([], Some err)"
| "run_prints (Inr l # ps) = (l # fst (run_prints ps), snd (run_prints ps))"

text \<open>
  Lines 80 to 85: both timings are read with \<^verbatim>\<open>.get(key, 0)\<close> and divided by 1000, then
  the three lines are printed.
\<close>

definition metrics :: "pageTimings \<Rightarrow> py_error + line list" where
  "metrics pt =
     (case true_div (case pt_onContentLoad pt of None \<Rightarrow> 0 | Some t \<Rightarrow> t) 1000 of
        Inl err \<Rightarrow> Inl err
      | Inr content_load \<Rightarrow>
          (case true_div (case pt_onLoad pt of None \<Rightarrow> 0 | Some t \<Rightarrow> t) 1000 of
             Inl err \<Rightarrow> Inl err
           | Inr page_load \<Rightarrow>
               Inr [MetricsHead, DomContentLoaded content_load, PageLoadComplete page_load]))"

text \<open>
  The whole run on a parsed document: the lines printed, and the exception that ended
  the run, if any.
\<close>

definition analyze_har :: "har \<Rightarrow> line list \<times> py_error option" where
  "analyze_har data =
     (case har_log data of
        None \<Rightarrow> ([], Some (KeyError ''log''))
      | Some lg \<Rightarrow>
          (case log_entries lg of
             None \<Rightarrow> ([], Some (KeyError ''entries''))
           | Some entries \<Rightarrow>
               (case loop init entries of
                  Inl err \<Rightarrow> ([], Some err)
                | Inr st \<Rightarrow>
                    (case run_prints (report st) of
                       (out, Some err) \<Rightarrow> (out, Some err)
                     | (out, None) \<Rightarrow>
                         (case log_pages lg of
                            None \<Rightarrow> (out, Some (KeyError ''pages''))
                          | Some [] \<Rightarrow> (out, Some IndexError)
                          | Some (page # _) \<Rightarrow>
                              (case page_pageTimings page of
                                 None \<Rightarrow> (out, Some (KeyError ''pageTimings''))
                               | Some pt \<Rightarrow>
                                   (case metrics pt of
                                      Inl err \<Rightarrow> (out, Some err)
                                    | Inr ls \<Rightarrow> (out @ ls, None))))))))"

text \<open>The rows of one section among the printed lines, as (name column, size).\<close>

fun rows_of :: "category \<Rightarrow> line list \<Rightarrow> (string \<times> int) list" where
  "rows_of c [] = []"
| "rows_of c (Row c' f s # ls) = (if c' = c then (f, s) # rows_of c ls else rows_of c ls)"
| "rows_of c (l # ls) = rows_of c ls"

text \<open>The lines that are rows; the others are the header, the totals and the headings.\<close>

fun is_row :: "line \<Rightarrow> bool" where
  "is_row (Row c f s) = True"
| "is_row l = False"

subsection \<open>What an entry contributes\<close>

text \<open>
  The fields of an entry that has its required keys, read off the document: the URL, the
  response, and the MIME type of the content, which is empty when the content or its
  MIME type is absent.
\<close>

definition url_of :: "entry \<Rightarrow> string" where
  "url_of e = the (req_url (the (entry_request e)))"

definition response_of :: "entry \<Rightarrow> response" where
  "response_of e = the (entry_response e)"

definition mime_of :: "entry \<Rightarrow> string" where
  "mime_of e =
     (case resp_content (response_of e) of
        None \<Rightarrow> []
      | Some c \<Rightarrow> (case cont_mimeType c of None \<Rightarrow> [] | Some m \<Rightarrow> m))"

text \<open>
  The size rule in words: the body size when it is present and not negative; for a
  negative body size the size of the content, or 0 without one; 0 for an absent body size.
\<close>

definition spec_size :: "response \<Rightarrow> int" where
  "spec_size rs =
     (case resp_bodySize rs of
        None \<Rightarrow> 0
      | Some b \<Rightarrow>
          if 0 \<le> b then b
          else (case resp_content rs of
                  None \<Rightarrow> 0
                | Some c \<Rightarrow> (case cont_size c of None \<Rightarrow> 0 | Some s \<Rightarrow> s)))"

definition size_of :: "entry \<Rightarrow> int" where
  "size_of e = spec_size (response_of e)"

text \<open>
  The primary category by first match, in the words of the specification: JavaScript,
  then CSS, then Font, else none.
\<close>

definition primary_category :: "string \<Rightarrow> string \<Rightarrow> category option" where
  "primary_category url mime =
     (if str_in ''.js'' url \<or> str_in ''javascript'' mime then Some JavaScript
      else if str_in ''.css'' url \<or> str_in ''text/css'' mime then Some CSS
      else if str_in ''.ttf'' url \<or> str_in ''.woff'' url \<or> str_in ''.woff2'' url
              \<or> str_in ''.otf'' url then Some Font
      else None)"

definition is_google :: "string \<Rightarrow> bool" where
  "is_google url = (str_in ''fonts.googleapis.com'' url \<or> str_in ''fonts.gstatic.com'' url)"

definition primary_of :: "entry \<Rightarrow> category option" where
  "primary_of e = primary_category (url_of e) (mime_of e)"

text \<open>The pairs of the entries of one primary category, in the order of the entries.\<close>

definition bucket_of :: "category \<Rightarrow> entry list \<Rightarrow> (string \<times> int) list" where
  "bucket_of c es =
     map (\<lambda>e. (display_name (url_of e), size_of e)) (filter (\<lambda>e. primary_of e = Some c) es)"

text \<open>The pairs of the entries with a Google Fonts host and no primary category.\<close>

definition google_bucket :: "entry list \<Rightarrow> (string \<times> int) list" where
  "google_bucket es =
     map (\<lambda>e. (take 80 (url_of e), size_of e))
       (filter (\<lambda>e. primary_of e = None \<and> is_google (url_of e)) es)"

subsection \<open>What the report shows\<close>

text \<open>
  The lines of the report before the page metrics when no division raises, with the row
  of a pair written as the name followed by spaces up to the width of its column.
\<close>

definition padded :: "nat \<Rightarrow> (string \<times> int) list \<Rightarrow> (string \<times> int) list" where
  "padded w rows = map (\<lambda>(name, s). (name @ replicate (w - length name) CHR '' '', s)) rows"

definition column_width :: "category \<Rightarrow> nat" where
  "column_width c = (if c = GoogleFont then 75 else 45)"

text \<open>
  The pairs a section shows: the first ten of the sorted JavaScript list, the first five
  of the sorted CSS list, all of the sorted Font list, the first five of the Google
  Fonts list.
\<close>

definition printed_pairs :: "category \<Rightarrow> acc \<Rightarrow> (string \<times> int) list" where
  "printed_pairs c st =
     (case c of
        JavaScript \<Rightarrow> take 10 (sort_desc (js_files st))
      | CSS \<Rightarrow> take 5 (sort_desc (css_files st))
      | Font \<Rightarrow> sort_desc (font_files st)
      | GoogleFont \<Rightarrow> take 5 (google_fonts st))"

definition section_lines :: "category \<Rightarrow> acc \<Rightarrow> line list" where
  "section_lines c st =
     map (\<lambda>(name, s). Row c name s) (padded (column_width c) (printed_pairs c st))"

definition report_lines :: "acc \<Rightarrow> line list" where
  "report_lines st =
     [Header, Rule, TotalSize (total_size st),
      SectionHead JavaScript (length (js_files st)) (sum_list (map snd (js_files st)))]
     @ section_lines JavaScript st
     @ [SectionHead CSS (length (css_files st)) (sum_list (map snd (css_files st)))]
     @ section_lines CSS st
     @ [SectionHead Font (length (font_files st)) (sum_list (map snd (font_files st)))]
     @ section_lines Font st
     @ (if google_fonts st \<noteq> []
        then GoogleHead (length (google_fonts st)) # section_lines GoogleFont st
        else [])
     @ [FormatHead,
        Woff2Files (length (filter (\<lambda>f. str_in ''.woff2'' (fst f)) (font_files st))),
        TtfFiles (length (filter (\<lambda>f. str_in ''.ttf'' (fst f)) (font_files st)))]"

text \<open>A line whose number of bytes can be divided by 1024 as a float.\<close>

fun fits :: "line \<Rightarrow> bool" where
  "fits (TotalSize x) = (\<bar>x\<bar> < 1024 * (2 ^ 1024 - 2 ^ 970))"
| "fits (SectionHead c n x) = (\<bar>x\<bar> < 1024 * (2 ^ 1024 - 2 ^ 970))"
| "fits (Row c f x) = (\<bar>x\<bar> < 1024 * (2 ^ 1024 - 2 ^ 970))"
| "fits l = True"

text \<open>The statement that prints a line: it raises when the number of the line does not fit.\<close>

definition check :: "line \<Rightarrow> py_error + line" where
  "check l = (if fits l then Inr l else Inl OverflowError)"

text \<open>A timing in milliseconds; an absent one counts as 0.\<close>

definition timing :: "int option \<Rightarrow> int" where
  "timing t = (case t of None \<Rightarrow> 0 | Some ms \<Rightarrow> ms)"

subsection \<open>Sample documents\<close>

text \<open>An entry with a URL, and a response with the given body size and content.\<close>

definition mk_entry :: "string \<Rightarrow> int option \<Rightarrow> content option \<Rightarrow> entry" where
  "mk_entry u b c =
     \<lparr>entry_request = Some \<lparr>req_url = Some u\<rparr>,
      entry_response = Some \<lparr>resp_bodySize = b, resp_content = c\<rparr>\<rparr>"

definition mk_har :: "entry list \<Rightarrow> page list \<Rightarrow> har" where
  "mk_har es ps = \<lparr>har_log = Some \<lparr>log_entries = Some es, log_pages = Some ps\<rparr>\<rparr>"

text \<open>A content object that has a size and no MIME type.\<close>

definition sized :: "int \<Rightarrow> content" where
  "sized n = \<lparr>cont_mimeType = None, cont_size = Some n\<rparr>"

text \<open>A font file served by Google Fonts, and two other requests to Google Fonts.\<close>

definition gstatic_woff2 :: entry where
  "gstatic_woff2 =
     mk_entry ''https://fonts.gstatic.com/s/roboto/v1/abc.woff2'' (Some 1000) None"

definition google_css2 :: entry where
  "google_css2 = mk_entry ''https://fonts.googleapis.com/css2?family=Roboto'' (Some 300) None"

definition google_icon :: entry where
  "google_icon =
     mk_entry ''https://fonts.googleapis.com/icon?family=Material+Icons'' (Some 700) None"

text \<open>Scripts; one has no body size, one a name of 50 characters.\<close>

definition app_js :: entry where
  "app_js = mk_entry ''https://cdn.example.com/app.min.js'' (Some 100) None"

definition app_js_no_body :: entry where
  "app_js_no_body = mk_entry ''https://cdn.example.com/app.min.js'' None (Some (sized 512))"

definition long_js :: entry where
  "long_js =
     mk_entry ''https://cdn.example.com/aaaaaaaaaaaaaaaaaaaaaaaaaaaaaaaaaaaaaaaaaaaaaaa.js''
       (Some 2048) None"

definition vendor_js :: entry where
  "vendor_js = mk_entry ''https://cdn.example.com/vendor.js'' (Some 900) None"

text \<open>A script whose size, divided by 1024, is beyond the largest float.\<close>

definition huge_js :: entry where
  "huge_js = mk_entry ''https://cdn.example.com/huge.js'' (Some (10 ^ 312)) None"

text \<open>A script and a style sheet that only their MIME types tell.\<close>

definition bundle_js :: entry where
  "bundle_js =
     mk_entry ''https://cdn.example.com/bundle'' (Some 70)
       (Some \<lparr>cont_mimeType = Some ''application/javascript'', cont_size = Some 70\<rparr>)"

definition google_style :: entry where
  "google_style =
     mk_entry ''https://fonts.googleapis.com/css2?family=Roboto'' (Some 80)
       (Some \<lparr>cont_mimeType = Some ''text/css; charset=utf-8'', cont_size = Some 80\<rparr>)"

text \<open>Entries whose body size is -1 and whose content size is negative too.\<close>

definition cached_js :: entry where
  "cached_js = mk_entry ''https://cdn.example.com/old.js'' (Some (- 1)) (Some (sized (- 300)))"

definition cached_css :: entry where
  "cached_css = mk_entry ''https://cdn.example.com/old.css'' (Some (- 1)) (Some (sized (- 20)))"

definition cached_font :: entry where
  "cached_font = mk_entry ''https://cdn.example.com/old.otf'' (Some (- 1)) (Some (sized (- 30)))"

definition cached_google :: entry where
  "cached_google =
     mk_entry ''https://fonts.googleapis.com/css2?family=Lato'' (Some (- 1)) (Some (sized (- 40)))"

text \<open>A URL with both \<^verbatim>\<open>.js\<close> and \<^verbatim>\<open>.css\<close>, a style sheet, a font file, a page.\<close>

definition app_js_css :: entry where
  "app_js_css = mk_entry ''https://cdn.example.com/app.js.css'' (Some 40) None"

definition site_css :: entry where
  "site_css =
     mk_entry ''https://cdn.example.com/site.css'' (Some 50)
       (Some \<lparr>cont_mimeType = Some ''text/css'', cont_size = Some 50\<rparr>)"

definition icons_ttf :: entry where
  "icons_ttf = mk_entry ''https://cdn.example.com/icons.ttf'' (Some 60) None"

definition page_html :: entry where
  "page_html = mk_entry ''https://example.com/index.html'' (Some 5000) None"

text \<open>A page of no category whose body size and content size are both negative.\<close>

definition cached_html :: entry where
  "cached_html = mk_entry ''https://example.com/index.html'' (Some (- 1)) (Some (sized (- 500)))"

section \<open>Properties\<close>

lemmas sample_defs =
  mk_entry_def mk_har_def sized_def gstatic_woff2_def google_css2_def google_icon_def
  app_js_def app_js_no_body_def long_js_def vendor_js_def cached_html_def cached_js_def
  cached_css_def cached_font_def cached_google_def app_js_css_def site_css_def icons_ttf_def
  page_html_def huge_js_def bundle_js_def google_style_def

lemmas run_defs =
  process_entry_def get_url_def get_response_def get_content_def get_mime_type_def
  get_size_def categorize_def display_name_def init_def Let_def

subsection \<open>String operations\<close>

lemma startswith_iff: "startswith p s \<longleftrightarrow> (\<exists>t. s = p @ t)"
  by (induction p s rule: startswith.induct) auto

lemma str_in_iff: "str_in p s \<longleftrightarrow> (\<exists>a b. s = a @ p @ b)"
proof (induction s)
  case Nil
  then show ?case by auto
next
  case (Cons c cs)
  show ?case
  proof
    assume "str_in p (c # cs)"
    then consider "startswith p (c # cs)" | "str_in p cs" by auto
    then show "\<exists>a b. c # cs = a @ p @ b"
    proof cases
      case 1
      then obtain t where "c # cs = p @ t" by (auto simp: startswith_iff)
      then have "c # cs = [] @ p @ t" by simp
      then show ?thesis by blast
    next
      case 2
      then obtain a b where "cs = a @ p @ b" using Cons.IH by blast
      then have "c # cs = (c # a) @ p @ b" by simp
      then show ?thesis by blast
    qed
  next
    assume "\<exists>a b. c # cs = a @ p @ b"
    then obtain a b where ab: "c # cs = a @ p @ b" by blast
    show "str_in p (c # cs)"
    proof (cases a)
      case Nil
      then have "startswith p (c # cs)" using ab by (auto simp: startswith_iff)
      then show ?thesis by simp
    next
      case (Cons x a')
      then have "cs = a' @ p @ b" using ab by simp
      then have "str_in p cs" using Cons.IH by blast
      then show ?thesis by simp
    qed
  qed
qed

lemma split_on_not_Nil: "split_on sep s \<noteq> []"
  by (induction s) (auto split: list.splits)

lemma split_on_no_sep: "sep \<notin> set s \<Longrightarrow> split_on sep s = [s]"
  by (induction s) auto

lemma split_on_sep: "sep \<in> set s \<Longrightarrow> 2 \<le> length (split_on sep s)"
proof (induction s)
  case Nil
  then show ?case by simp
next
  case (Cons c cs)
  show ?case
  proof (cases "c = sep")
    case True
    then show ?thesis
      using split_on_not_Nil [of sep cs] by (cases "split_on sep cs") auto
  next
    case False
    then have "sep \<in> set cs" using Cons.prems by simp
    then have "2 \<le> length (split_on sep cs)" by (rule Cons.IH)
    then show ?thesis using False by (auto split: list.splits)
  qed
qed

text \<open>The last piece is what follows the last separator.\<close>

lemma last_split_on: "last (split_on sep s) = rev (takeWhile (\<lambda>c. c \<noteq> sep) (rev s))"
proof (induction s)
  case Nil
  then show ?case by simp
next
  case (Cons c cs)
  show ?case
  proof (cases "c = sep")
    case True
    then show ?thesis
      using Cons.IH split_on_not_Nil [of sep cs] by (auto simp: takeWhile_append)
  next
    case False
    show ?thesis
    proof (cases "sep \<in> set cs")
      case True
      then have "2 \<le> length (split_on sep cs)" by (rule split_on_sep)
      then obtain w v ws where "split_on sep cs = w # v # ws"
        by (cases "split_on sep cs"; cases "tl (split_on sep cs)") auto
      then show ?thesis
        using Cons.IH True False by (auto simp: takeWhile_append)
    next
      case notin: False
      then show ?thesis
        using False by (simp add: split_on_no_sep takeWhile_append)
    qed
  qed
qed

text \<open>Joining the pieces with the separator gives the string back.\<close>

lemma join_split_on:
  "concat (map (\<lambda>w. sep # w) (split_on sep s)) = sep # s"
  by (induction s) (auto split: list.splits)

lemma length_fmt_str: "length (fmt_str w s) = max w (length s)"
  by (simp add: fmt_str_def)

lemma length_display_name: "length (display_name url) \<le> 50"
  by (simp add: display_name_def)

subsection \<open>The loop\<close>

lemma primary_category_cases:
  "primary_category u m = Some JavaScript \<longleftrightarrow> (str_in ''.js'' u \<or> str_in ''javascript'' m)"
  "primary_category u m = Some CSS \<longleftrightarrow>
     (\<not> (str_in ''.js'' u \<or> str_in ''javascript'' m) \<and> (str_in ''.css'' u \<or> str_in ''text/css'' m))"
  "primary_category u m = Some Font \<longleftrightarrow>
     (\<not> (str_in ''.js'' u \<or> str_in ''javascript'' m) \<and> \<not> (str_in ''.css'' u \<or> str_in ''text/css'' m)
      \<and> (str_in ''.ttf'' u \<or> str_in ''.woff'' u \<or> str_in ''.woff2'' u \<or> str_in ''.otf'' u))"
  "primary_category u m \<noteq> Some GoogleFont"
  by (simp_all add: primary_category_def)

text \<open>What one pass changes, list by list.\<close>

lemma categorize_js_files:
  "js_files (categorize st u m s) =
     js_files st @ (if primary_category u m = Some JavaScript then [(display_name u, s)] else [])"
  by (simp add: categorize_def primary_category_def Let_def)

lemma categorize_css_files:
  "css_files (categorize st u m s) =
     css_files st @ (if primary_category u m = Some CSS then [(display_name u, s)] else [])"
  by (simp add: categorize_def primary_category_def Let_def)

lemma categorize_font_files:
  "font_files (categorize st u m s) =
     font_files st @ (if primary_category u m = Some Font then [(display_name u, s)] else [])"
  by (simp add: categorize_def primary_category_def Let_def)

lemma categorize_google_fonts:
  "google_fonts (categorize st u m s) =
     google_fonts st
     @ (if primary_category u m = None \<and> is_google u then [(take 80 u, s)] else [])"
  by (simp add: categorize_def primary_category_def is_google_def Let_def)

lemma categorize_total_size: "total_size (categorize st u m s) = total_size st + s"
  by (simp add: categorize_def Let_def)

lemmas categorize_fields =
  categorize_js_files categorize_css_files categorize_font_files categorize_google_fonts
  categorize_total_size

lemma get_size_spec: "get_size rs = spec_size rs"
  by (auto simp: get_size_def spec_size_def get_content_def Let_def split: option.splits)

lemma url_of_get_url: "get_url e = Inr u \<Longrightarrow> url_of e = u"
  by (auto simp: get_url_def url_of_def split: option.splits)

lemma response_of_get_response: "get_response e = Inr rs \<Longrightarrow> response_of e = rs"
  by (auto simp: get_response_def response_of_def split: option.splits)

lemma mime_of_get_response: "get_response e = Inr rs \<Longrightarrow> mime_of e = get_mime_type rs"
  by (auto simp: response_of_get_response mime_of_def get_mime_type_def get_content_def
      split: option.splits)

lemma process_entry_Inr:
  "process_entry st e = Inr st' \<Longrightarrow> st' = categorize st (url_of e) (mime_of e) (size_of e)"
  by (auto simp: process_entry_def get_url_def get_response_def get_mime_type_def
      get_content_def get_size_spec url_of_def mime_of_def size_of_def response_of_def
      split: sum.splits option.splits)

text \<open>A loop that ends without an exception has filed every entry, in order.\<close>

lemma loop_result:
  assumes "loop st es = Inr st'"
  shows "js_files st' = js_files st @ bucket_of JavaScript es
       \<and> css_files st' = css_files st @ bucket_of CSS es
       \<and> font_files st' = font_files st @ bucket_of Font es
       \<and> google_fonts st' = google_fonts st @ google_bucket es
       \<and> total_size st' = total_size st + sum_list (map size_of es)"
  using assms
proof (induction es arbitrary: st)
  case Nil
  then show ?case by (simp add: bucket_of_def google_bucket_def)
next
  case (Cons e es)
  from Cons.prems obtain st1
    where step: "process_entry st e = Inr st1" and rest: "loop st1 es = Inr st'"
    by (auto split: sum.splits)
  have st1: "st1 = categorize st (url_of e) (mime_of e) (size_of e)"
    by (rule process_entry_Inr [OF step])
  show ?case
    using Cons.IH [OF rest]
    by (simp add: st1 categorize_fields bucket_of_def google_bucket_def primary_of_def)
qed

lemma loop_init:
  assumes "loop init es = Inr st"
  shows "js_files st = bucket_of JavaScript es" and "css_files st = bucket_of CSS es"
    and "font_files st = bucket_of Font es" and "google_fonts st = google_bucket es"
    and "total_size st = sum_list (map size_of es)"
  using loop_result [OF assms] by (simp_all add: init_def)

text \<open>The loop fails only on an entry that lacks a required key.\<close>

lemma loop_succeeds:
  assumes "\<forall>e \<in> set es. \<exists>u rs. get_url e = Inr u \<and> get_response e = Inr rs"
  shows "\<exists>st'. loop st es = Inr st'"
  using assms
proof (induction es arbitrary: st)
  case Nil
  then show ?case by simp
next
  case (Cons e es)
  then obtain u rs where "get_url e = Inr u" "get_response e = Inr rs" by auto
  then have "process_entry st e = Inr (categorize st u (get_mime_type rs) (get_size rs))"
    by (simp add: process_entry_def)
  then show ?case using Cons by simp
qed

subsection \<open>Sorting\<close>

lemma sum_list_insort_key:
  "sum_list (map f (insort_key f x xs)) = f x + sum_list (map f xs)" for f :: "'a \<Rightarrow> int"
  by (induction xs) auto

lemma sum_list_sort_key:
  "sum_list (map f (sort_key f xs)) = sum_list (map f xs)" for f :: "'a \<Rightarrow> int"
  by (induction xs) (auto simp: sum_list_insort_key)

lemma map_snd_sort_desc: "map snd (sort_desc xs) = rev (map snd (sort_key snd (rev xs)))"
  by (simp add: sort_desc_def rev_map)

lemma sum_list_sort_desc: "sum_list (map snd (sort_desc xs)) = sum_list (map snd xs)"
proof -
  have "sum_list (map snd (sort_desc xs)) = sum_list (map snd (sort_key snd (rev xs)))"
    by (simp add: map_snd_sort_desc)
  also have "\<dots> = sum_list (map snd (rev xs))"
    by (rule sum_list_sort_key)
  also have "\<dots> = sum_list (map snd xs)"
    by (simp add: rev_map [symmetric])
  finally show ?thesis .
qed

lemma set_sort_desc: "set (sort_desc xs) = set xs"
  by (simp add: sort_desc_def)

lemma length_sort_desc: "length (sort_desc xs) = length xs"
  by (simp add: sort_desc_def)

lemma sorted_sort_desc: "sorted_wrt (\<ge>) (map snd (sort_desc xs))"
  by (simp add: map_snd_sort_desc sorted_wrt_rev)

text \<open>Pairs of one size keep the order they had: the sort is stable.\<close>

lemma sort_desc_stable:
  "filter (\<lambda>p. snd p = k) (sort_desc xs) = filter (\<lambda>p. snd p = k) xs"
proof -
  have "filter (\<lambda>p. snd p = k) (sort_desc xs)
      = rev (filter (\<lambda>p. snd p = k) (sort_key snd (rev xs)))"
    by (simp add: sort_desc_def rev_filter)
  also have "\<dots> = rev (filter (\<lambda>p. snd p = k) (rev xs))"
    by (simp only: sort_key_stable)
  also have "\<dots> = filter (\<lambda>p. snd p = k) xs"
    by (simp add: rev_filter)
  finally show ?thesis .
qed

subsection \<open>Float division and the statements of the report\<close>

lemma true_div_small: "\<bar>x\<bar> < 2 ^ 1023 \<Longrightarrow> 1 \<le> d \<Longrightarrow> true_div x d = Inr x"
proof -
  assume x: "\<bar>x\<bar> < 2 ^ 1023" and d: "1 \<le> d"
  have "(2::int) ^ 1023 \<le> 2 ^ 1024 - 2 ^ 970"
    by simp
  also have "\<dots> \<le> d * (2 ^ 1024 - 2 ^ 970)"
    using d by (simp add: mult_le_cancel_right1)
  finally show ?thesis
    using x by (simp add: true_div_def)
qed

lemma true_div_cases:
  "true_div x d = (if \<bar>x\<bar> < d * (2 ^ 1024 - 2 ^ 970) then Inr x else Inl OverflowError)"
  by (simp add: true_div_def not_less)

lemma run_prints_check:
  "run_prints (map check ls) =
     (takeWhile fits ls, if list_all fits ls then None else Some OverflowError)"
  by (induction ls) (auto simp: check_def)

lemma print_kb_check:
  "print_kb TotalSize x = check (TotalSize x)"
  "print_kb (SectionHead c n) x = check (SectionHead c n x)"
  "print_kb (Row c f) x = check (Row c f x)"
  by (simp_all add: print_kb_def true_div_cases check_def)

lemma check_plain:
  "Inr Header = check Header" "Inr Rule = check Rule" "Inr (GoogleHead n) = check (GoogleHead n)"
  "Inr FormatHead = check FormatHead" "Inr (Woff2Files n) = check (Woff2Files n)"
  "Inr (TtfFiles n) = check (TtfFiles n)"
  by (simp_all add: check_def)

lemma print_rows_check:
  "print_rows c w rows = map check (map (\<lambda>(name, s). Row c name s) (padded w rows))"
  by (induction rows) (auto simp: print_rows_def padded_def fmt_str_def print_kb_check)

lemma length_filter_insort_key:
  "length (filter P (insort_key f x xs)) = length (filter P (x # xs))"
  by (induction xs) auto

lemma length_filter_sort_key: "length (filter P (sort_key f xs)) = length (filter P xs)"
  by (induction xs) (auto simp: length_filter_insort_key)

lemma length_filter_sort_desc: "length (filter P (sort_desc xs)) = length (filter P xs)"
  by (simp add: sort_desc_def rev_filter [symmetric] length_filter_sort_key)

lemma report_check: "report st = map check (report_lines st)"
  by (simp add: report_def report_lines_def section_lines_def printed_pairs_def column_width_def
      Let_def print_rows_check print_kb_check check_plain length_sort_desc sum_list_sort_desc
      length_filter_sort_desc)

lemma run_report:
  "run_prints (report st) =
     (takeWhile fits (report_lines st),
      if list_all fits (report_lines st) then None else Some OverflowError)"
  by (simp only: report_check run_prints_check)

subsection \<open>The run\<close>

lemma analyze_har_reached:
  assumes "har_log data = Some lg" and "log_entries lg = Some es" and "loop init es = Inr st"
  shows "analyze_har data =
           (if list_all fits (report_lines st)
            then (case log_pages lg of
                    None \<Rightarrow> (report_lines st, Some (KeyError ''pages''))
                  | Some [] \<Rightarrow> (report_lines st, Some IndexError)
                  | Some (page # x) \<Rightarrow>
                      (case page_pageTimings page of
                         None \<Rightarrow> (report_lines st, Some (KeyError ''pageTimings''))
                       | Some pt \<Rightarrow>
                           (case metrics pt of
                              Inl err \<Rightarrow> (report_lines st, Some err)
                            | Inr ls \<Rightarrow> (report_lines st @ ls, None))))
            else (takeWhile fits (report_lines st), Some OverflowError))"
proof (cases "list_all fits (report_lines st)")
  case True
  then have all: "takeWhile fits (report_lines st) = report_lines st"
    by (simp add: list_all_iff)
  show ?thesis
    using assms True by (simp add: analyze_har_def run_report all)
next
  case False
  then show ?thesis
    using assms by (simp add: analyze_har_def run_report)
qed

lemma metrics_cases:
  "metrics pt =
     (if \<bar>timing (pt_onContentLoad pt)\<bar> < 1000 * (2 ^ 1024 - 2 ^ 970)
         \<and> \<bar>timing (pt_onLoad pt)\<bar> < 1000 * (2 ^ 1024 - 2 ^ 970)
      then Inr [MetricsHead, DomContentLoaded (timing (pt_onContentLoad pt)),
                PageLoadComplete (timing (pt_onLoad pt))]
      else Inl OverflowError)"
  by (simp add: metrics_def true_div_cases timing_def)

lemma rows_of_metrics: "metrics pt = Inr ls \<Longrightarrow> rows_of c ls = []"
  by (auto simp: metrics_cases split: if_splits)

lemma rows_of_append: "rows_of c (xs @ ys) = rows_of c xs @ rows_of c ys"
  by (induction c xs rule: rows_of.induct) auto

lemma rows_of_takeWhile: "prefix (rows_of c (takeWhile P ls)) (rows_of c ls)"
proof -
  have "rows_of c ls = rows_of c (takeWhile P ls) @ rows_of c (dropWhile P ls)"
    by (simp add: rows_of_append [symmetric])
  then show ?thesis
    by (rule prefixI)
qed

lemma rows_of_Row: "rows_of c (map (\<lambda>(name, s). Row c' name s) rows) = (if c' = c then rows else [])"
  by (induction rows) auto

lemma rows_of_section_lines:
  "rows_of c (section_lines c' st) =
     (if c' = c then padded (column_width c) (printed_pairs c st) else [])"
  by (simp add: section_lines_def rows_of_Row)

lemma rows_of_report_lines:
  "rows_of c (report_lines st) = padded (column_width c) (printed_pairs c st)"
  by (cases c)
    (simp_all add: report_lines_def rows_of_append rows_of_section_lines padded_def
      printed_pairs_def)

lemma rows_of_analyze_har_report:
  assumes "har_log data = Some lg" and "log_entries lg = Some es" and "loop init es = Inr st"
  shows "rows_of c (fst (analyze_har data)) = rows_of c (takeWhile fits (report_lines st))"
proof (cases "list_all fits (report_lines st)")
  case True
  then have all: "takeWhile fits (report_lines st) = report_lines st"
    by (simp add: list_all_iff)
  show ?thesis
    using True
    by (auto simp: analyze_har_reached [OF assms] all rows_of_append rows_of_metrics
        split: option.splits list.splits sum.splits)
next
  case False
  then show ?thesis
    by (simp add: analyze_har_reached [OF assms])
qed

lemma no_overflow_fits:
  assumes "har_log data = Some lg" and "log_entries lg = Some es" and "loop init es = Inr st"
    and "snd (analyze_har data) \<noteq> Some OverflowError"
  shows "list_all fits (report_lines st)"
  using assms(4) by (auto simp: analyze_har_reached [OF assms(1-3)] split: if_splits)

lemma rows_of_analyze_har:
  "rows_of c (fst (analyze_har data)) = []
   \<or> (\<exists>es st. loop init es = Inr st
         \<and> rows_of c (fst (analyze_har data)) = rows_of c (takeWhile fits (report_lines st)))"
proof (cases "\<exists>lg es st. har_log data = Some lg \<and> log_entries lg = Some es
                \<and> loop init es = Inr st")
  case True
  then show ?thesis using rows_of_analyze_har_report by blast
next
  case False
  then have "fst (analyze_har data) = []"
    by (auto simp: analyze_har_def split: option.splits sum.splits)
  then show ?thesis by simp
qed

text \<open>A script of \<open>10 ^ 312\<close> bytes: the total cannot be divided, and two lines are printed.\<close>

lemma huge_size_overflows:
  "analyze_har (mk_har [huge_js] []) = ([Header, Rule], Some OverflowError)"
  by (simp add: huge_js_def sample_defs run_defs analyze_har_def report_def print_kb_def
      true_div_def print_rows_def sort_desc_def)

lemma huge_row_overflows:
  "run_prints (print_rows JavaScript 45 [(''a.js'', 5), (''b.js'', 10 ^ 312), (''c.js'', 1)]) =
     ([Row JavaScript ''a.js                                         '' 5], Some OverflowError)"
  by code_simp

lemma filter_section_lines: "filter (\<lambda>l. \<not> is_row l) (section_lines c st) = []"
  by (auto simp: section_lines_def filter_empty_conv)

lemma report_heads:
  "filter (\<lambda>l. \<not> is_row l) (report_lines st) =
     [Header, Rule, TotalSize (total_size st),
      SectionHead JavaScript (length (js_files st)) (sum_list (map snd (js_files st))),
      SectionHead CSS (length (css_files st)) (sum_list (map snd (css_files st))),
      SectionHead Font (length (font_files st)) (sum_list (map snd (font_files st)))]
     @ (if google_fonts st \<noteq> [] then [GoogleHead (length (google_fonts st))] else [])
     @ [FormatHead,
        Woff2Files (length (filter (\<lambda>f. str_in ''.woff2'' (fst f)) (font_files st))),
        TtfFiles (length (filter (\<lambda>f. str_in ''.ttf'' (fst f)) (font_files st)))]"
  by (simp add: report_lines_def filter_section_lines)

lemma run_report_None:
  assumes "run_prints (report st) = (out, None)"
  shows "out = report_lines st" and "list_all fits (report_lines st)"
proof -
  show *: "list_all fits (report_lines st)"
    using assms by (auto simp: run_report split: if_splits)
  then have all: "takeWhile fits (report_lines st) = report_lines st"
    by (simp add: list_all_iff)
  show "out = report_lines st"
    using assms by (simp add: run_report all)
qed

section \<open>The claims\<close>

subsection \<open>The Google Fonts list\<close>

text \<open>
  C1, as amended. The Google Fonts test is the last \<^verbatim>\<open>elif\<close> of the chain: after a loop
  that ends without an exception, the Google Fonts list holds, in the order of the
  entries, the pair (first 80 characters of the URL, size) of exactly those entries whose
  URL contains \<^verbatim>\<open>fonts.googleapis.com\<close> or \<^verbatim>\<open>fonts.gstatic.com\<close> and that have no primary
  category. An entry with a primary category is not added to it.
\<close>

theorem google_fonts_bucket:
  assumes "loop init es = Inr st"
  shows "google_fonts st =
           map (\<lambda>e. (take 80 (url_of e), size_of e))
             (filter (\<lambda>e. primary_of e = None \<and> is_google (url_of e)) es)"
  using loop_init(4) [OF assms] by (simp add: google_bucket_def)

text \<open>Of a font file and a style request, both to Google Fonts, only the second is listed.\<close>

theorem google_fonts_bucket_witness:
  "loop init [gstatic_woff2, google_css2] =
     Inr \<lparr>js_files = [], css_files = [], font_files = [(''abc.woff2'', 1000)],
          google_fonts = [(''https://fonts.googleapis.com/css2?family=Roboto'', 300)],
          total_size = 1300\<rparr>
   \<and> map (\<lambda>e. (take 80 (url_of e), size_of e))
       (filter (\<lambda>e. primary_of e = None \<and> is_google (url_of e)) [gstatic_woff2, google_css2])
     = [(''https://fonts.googleapis.com/css2?family=Roboto'', 300)]"
proof -
  have run: "loop init [gstatic_woff2, google_css2] =
     Inr \<lparr>js_files = [], css_files = [], font_files = [(''abc.woff2'', 1000)],
          google_fonts = [(''https://fonts.googleapis.com/css2?family=Roboto'', 300)],
          total_size = 1300\<rparr>"
    by (simp add: sample_defs run_defs)
  show ?thesis
    using google_fonts_bucket [OF run] run by simp
qed

text \<open>
  C1 as stated fails: the URL \<^verbatim>\<open>https://fonts.gstatic.com/s/roboto/v1/abc.woff2\<close> contains
  \<^verbatim>\<open>fonts.gstatic.com\<close>, the entry is filed under Font as \<^verbatim>\<open>abc.woff2\<close>, and the Google Fonts
  list stays empty.
\<close>

theorem google_font_file_counterexample:
  "is_google ''https://fonts.gstatic.com/s/roboto/v1/abc.woff2''
   \<and> loop init [gstatic_woff2] =
       Inr \<lparr>js_files = [], css_files = [], font_files = [(''abc.woff2'', 1000)],
            google_fonts = [], total_size = 1000\<rparr>"
  by (simp add: sample_defs run_defs is_google_def)

subsection \<open>The recorded size\<close>

text \<open>
  C2, as amended. The size recorded for an entry, in the total and in the pair filed in
  a list, is the body size when that is present and not negative; when the body size is
  negative it is the size of the content if there is one, else 0; when the body size is
  absent it is 0, whatever the content says.
\<close>

theorem recorded_size:
  assumes "loop init es = Inr st"
  shows "total_size st = sum_list (map (\<lambda>e. spec_size (response_of e)) es)
       \<and> js_files st =
           map (\<lambda>e. (display_name (url_of e), spec_size (response_of e)))
             (filter (\<lambda>e. primary_of e = Some JavaScript) es)
       \<and> css_files st =
           map (\<lambda>e. (display_name (url_of e), spec_size (response_of e)))
             (filter (\<lambda>e. primary_of e = Some CSS) es)
       \<and> font_files st =
           map (\<lambda>e. (display_name (url_of e), spec_size (response_of e)))
             (filter (\<lambda>e. primary_of e = Some Font) es)
       \<and> google_fonts st =
           map (\<lambda>e. (take 80 (url_of e), spec_size (response_of e)))
             (filter (\<lambda>e. primary_of e = None \<and> is_google (url_of e)) es)"
proof -
  have size: "size_of = (\<lambda>e. spec_size (response_of e))"
    by (rule ext) (simp add: size_of_def)
  show ?thesis
    using loop_init [OF assms] by (simp add: bucket_of_def google_bucket_def size)
qed

text \<open>A script without a body size, a page with two negative sizes, a script of 100 bytes.\<close>

theorem recorded_size_witness:
  "loop init [app_js_no_body, cached_html, app_js] =
     Inr \<lparr>js_files = [(''app.min.js'', 0), (''app.min.js'', 100)], css_files = [],
          font_files = [], google_fonts = [], total_size = - 400\<rparr>
   \<and> sum_list (map (\<lambda>e. spec_size (response_of e)) [app_js_no_body, cached_html, app_js])
     = - 400"
proof -
  have run: "loop init [app_js_no_body, cached_html, app_js] =
     Inr \<lparr>js_files = [(''app.min.js'', 0), (''app.min.js'', 100)], css_files = [],
          font_files = [], google_fonts = [], total_size = - 400\<rparr>"
    by (simp add: sample_defs run_defs)
  show ?thesis
    using recorded_size [OF run] run by simp
qed

text \<open>
  C2 as stated fails: with no \<^verbatim>\<open>bodySize\<close> and a content size of 512 the recorded size is
  0, not 512.
\<close>

theorem absent_body_size_counterexample:
  "resp_bodySize (response_of app_js_no_body) = None
   \<and> cont_size (get_content (response_of app_js_no_body)) = Some 512
   \<and> loop init [app_js_no_body] =
       Inr \<lparr>js_files = [(''app.min.js'', 0)], css_files = [], font_files = [],
            google_fonts = [], total_size = 0\<rparr>"
  by (simp add: sample_defs run_defs response_of_def)

subsection \<open>The width of the name column\<close>

lemma bucket_name_length: "(n, s) \<in> set (bucket_of c es) \<Longrightarrow> length n \<le> 50"
  by (auto simp: bucket_of_def length_display_name)

lemma google_name_length: "(n, s) \<in> set (google_bucket es) \<Longrightarrow> length n \<le> 80"
  by (auto simp: google_bucket_def)

lemma printed_name_length:
  assumes "loop init es = Inr st" and "(n, s) \<in> set (printed_pairs c st)"
  shows "length n \<le> column_width c + 5"
proof (cases c)
  case JavaScript
  then have "(n, s) \<in> set (bucket_of JavaScript es)"
    using assms(2) loop_init(1) [OF assms(1)]
    by (auto simp: printed_pairs_def set_sort_desc dest: in_set_takeD)
  then show ?thesis
    using JavaScript bucket_name_length by (fastforce simp: column_width_def)
next
  case CSS
  then have "(n, s) \<in> set (bucket_of CSS es)"
    using assms(2) loop_init(2) [OF assms(1)]
    by (auto simp: printed_pairs_def set_sort_desc dest: in_set_takeD)
  then show ?thesis
    using CSS bucket_name_length by (fastforce simp: column_width_def)
next
  case Font
  then have "(n, s) \<in> set (bucket_of Font es)"
    using assms(2) loop_init(3) [OF assms(1)]
    by (auto simp: printed_pairs_def set_sort_desc)
  then show ?thesis
    using Font bucket_name_length by (fastforce simp: column_width_def)
next
  case GoogleFont
  then have "(n, s) \<in> set (google_bucket es)"
    using assms(2) loop_init(4) [OF assms(1)]
    by (auto simp: printed_pairs_def dest: in_set_takeD)
  then show ?thesis
    using GoogleFont google_name_length by (fastforce simp: column_width_def)
qed

lemma padded_width:
  assumes "(f, s) \<in> set (padded w rows)" and "\<forall>(n, s) \<in> set rows. length n \<le> w + 5"
  shows "w \<le> length f \<and> length f \<le> w + 5"
  using assms by (auto simp: padded_def)

text \<open>
  C3, as amended. Printing never shortens a name. In a run that reaches the report, the
  rows printed in a section are, in order, the pairs the section shows, each name
  followed by spaces up to 45 characters (75 in a Google Fonts row) and a longer name
  written whole: all of them when the run does not end with an OverflowError, the first
  of them otherwise. Since names were cut to 50 characters (80 for Google Fonts) when
  collected, the name column of every printed row has between 45 and 50 characters
  (between 75 and 80 in a Google Fonts row).
\<close>

theorem name_column_width:
  assumes "har_log data = Some lg" and "log_entries lg = Some es" and "loop init es = Inr st"
  shows "prefix (rows_of c (fst (analyze_har data)))
           (padded (column_width c) (printed_pairs c st))
       \<and> (snd (analyze_har data) \<noteq> Some OverflowError
            \<longrightarrow> rows_of c (fst (analyze_har data))
                  = padded (column_width c) (printed_pairs c st))
       \<and> (\<forall>(f, s) \<in> set (rows_of c (fst (analyze_har data))).
            column_width c \<le> length f \<and> length f \<le> column_width c + 5)"
proof -
  let ?rows = "rows_of c (fst (analyze_har data))"
  let ?all = "padded (column_width c) (printed_pairs c st)"
  have rows: "?rows = rows_of c (takeWhile fits (report_lines st))"
    by (rule rows_of_analyze_har_report [OF assms])
  have pre: "prefix ?rows ?all"
    unfolding rows using rows_of_takeWhile [of c fits "report_lines st"]
    by (simp only: rows_of_report_lines)
  have whole: "?rows = ?all" if "snd (analyze_har data) \<noteq> Some OverflowError"
  proof -
    have "list_all fits (report_lines st)"
      by (rule no_overflow_fits [OF assms that])
    then have "takeWhile fits (report_lines st) = report_lines st"
      by (simp add: list_all_iff)
    then show ?thesis
      by (simp only: rows rows_of_report_lines)
  qed
  have "column_width c \<le> length f \<and> length f \<le> column_width c + 5"
    if "(f, s) \<in> set ?rows" for f s
  proof -
    have "(f, s) \<in> set ?all"
      using that set_mono_prefix [OF pre] by blast
    moreover have "\<forall>(n, s) \<in> set (printed_pairs c st). length n \<le> column_width c + 5"
      using printed_name_length [OF assms(3)] by blast
    ultimately show ?thesis
      by (rule padded_width)
  qed
  with pre whole show ?thesis by blast
qed

text \<open>A name of 50 characters, a name of 10 characters and a Google Fonts URL in one report.\<close>

theorem name_column_width_witness:
  "rows_of JavaScript (fst (analyze_har (mk_har [app_js, long_js, google_css2] []))) =
     [(''aaaaaaaaaaaaaaaaaaaaaaaaaaaaaaaaaaaaaaaaaaaaaaa.js'', 2048),
      (''app.min.js                                   '', 100)]
   \<and> rows_of GoogleFont (fst (analyze_har (mk_har [app_js, long_js, google_css2] []))) =
     [(''https://fonts.googleapis.com/css2?family=Roboto                            '', 300)]"
proof -
  let ?es = "[app_js, long_js, google_css2]"
  let ?st = "\<lparr>js_files = [(''app.min.js'', 100),
                 (''aaaaaaaaaaaaaaaaaaaaaaaaaaaaaaaaaaaaaaaaaaaaaaa.js'', 2048)],
        css_files = [], font_files = [],
        google_fonts = [(''https://fonts.googleapis.com/css2?family=Roboto'', 300)],
        total_size = 2448\<rparr>"
  have lg: "har_log (mk_har ?es []) = Some \<lparr>log_entries = Some ?es, log_pages = Some []\<rparr>"
    by (simp add: mk_har_def)
  have es: "log_entries \<lparr>log_entries = Some ?es, log_pages = Some []\<rparr> = Some ?es"
    by simp
  have run: "loop init ?es = Inr ?st"
    by (simp add: sample_defs run_defs)
  have err: "snd (analyze_har (mk_har ?es [])) \<noteq> Some OverflowError"
    by code_simp
  have js: "padded (column_width JavaScript) (printed_pairs JavaScript ?st) =
     [(''aaaaaaaaaaaaaaaaaaaaaaaaaaaaaaaaaaaaaaaaaaaaaaa.js'', 2048),
      (''app.min.js                                   '', 100)]"
    by code_simp
  have google: "padded (column_width GoogleFont) (printed_pairs GoogleFont ?st) =
     [(''https://fonts.googleapis.com/css2?family=Roboto                            '', 300)]"
    by code_simp
  show ?thesis
    using name_column_width [OF lg es run, of JavaScript]
      name_column_width [OF lg es run, of GoogleFont] err
    by (simp only: js google simp_thms)
qed

text \<open>
  C3 as stated fails: a script whose name has 50 characters is printed with all 50, five
  more than the column of 45.
\<close>

theorem long_name_counterexample:
  "rows_of JavaScript (fst (analyze_har (mk_har [long_js] []))) =
     [(''aaaaaaaaaaaaaaaaaaaaaaaaaaaaaaaaaaaaaaaaaaaaaaa.js'', 2048)]
   \<and> length ''aaaaaaaaaaaaaaaaaaaaaaaaaaaaaaaaaaaaaaaaaaaaaaa.js'' = 50"
proof -
  have "rows_of JavaScript (fst (analyze_har (mk_har [long_js] []))) =
     [(''aaaaaaaaaaaaaaaaaaaaaaaaaaaaaaaaaaaaaaaaaaaaaaa.js'', 2048)]"
    by code_simp
  then show ?thesis by simp
qed

subsection \<open>The total and the sums of the lists\<close>

lemma primary_of_cases:
  "primary_of e = Some JavaScript \<or> primary_of e = Some CSS \<or> primary_of e = Some Font
   \<or> primary_of e = None"
  by (simp add: primary_of_def primary_category_def)

lemma sum_by_category:
  "sum_list (map size_of es) =
     sum_list (map snd (bucket_of JavaScript es)) + sum_list (map snd (bucket_of CSS es))
     + sum_list (map snd (bucket_of Font es))
     + sum_list (map size_of (filter (\<lambda>e. primary_of e = None) es))"
proof (induction es)
  case Nil
  then show ?case by (simp add: bucket_of_def)
next
  case (Cons e es)
  show ?case
    using primary_of_cases [of e] Cons.IH by (auto simp: bucket_of_def)
qed

text \<open>
  C4, as amended. The total is the sum of the JavaScript, CSS and Font lists plus the
  sizes recorded for the entries without a primary category. So the three sums together
  are at most the total whenever the sizes of the entries without a primary category sum
  to 0 or more, as they do when no recorded size is negative.
\<close>

theorem total_and_primary_sums:
  assumes "loop init es = Inr st"
  shows "total_size st =
           sum_list (map snd (sort_desc (js_files st)))
           + sum_list (map snd (sort_desc (css_files st)))
           + sum_list (map snd (sort_desc (font_files st)))
           + sum_list (map size_of (filter (\<lambda>e. primary_of e = None) es))
       \<and> (0 \<le> sum_list (map size_of (filter (\<lambda>e. primary_of e = None) es))
            \<longrightarrow> sum_list (map snd (sort_desc (js_files st)))
                + sum_list (map snd (sort_desc (css_files st)))
                + sum_list (map snd (sort_desc (font_files st)))
                \<le> total_size st)"
proof -
  have "total_size st = sum_list (map size_of es)"
    by (rule loop_init(5) [OF assms])
  then show ?thesis
    using sum_by_category [of es] loop_init(1,2,3) [OF assms]
    by (simp add: sum_list_sort_desc)
qed

text \<open>A script, a page of 5000 bytes and a font: 100 + 0 + 1000 is at most 6100.\<close>

theorem total_and_primary_sums_witness:
  "loop init [app_js, page_html, gstatic_woff2] =
     Inr \<lparr>js_files = [(''app.min.js'', 100)], css_files = [],
          font_files = [(''abc.woff2'', 1000)], google_fonts = [], total_size = 6100\<rparr>
   \<and> sum_list (map size_of (filter (\<lambda>e. primary_of e = None)
                               [app_js, page_html, gstatic_woff2])) = 5000"
proof -
  have run: "loop init [app_js, page_html, gstatic_woff2] =
     Inr \<lparr>js_files = [(''app.min.js'', 100)], css_files = [],
          font_files = [(''abc.woff2'', 1000)], google_fonts = [], total_size = 6100\<rparr>"
    by (simp add: sample_defs run_defs)
  show ?thesis
    using total_and_primary_sums [OF run] run by (simp add: sort_desc_def)
qed

text \<open>
  C4 as stated fails: a script of 100 bytes and a page whose body size is -1 and whose
  content size is -500 give a JavaScript sum of 100 and a total of -400.
\<close>

theorem negative_total_counterexample:
  "loop init [app_js, cached_html] =
     Inr \<lparr>js_files = [(''app.min.js'', 100)], css_files = [], font_files = [],
          google_fonts = [], total_size = - 400\<rparr>
   \<and> \<not> (sum_list (map snd (js_files (projr (loop init [app_js, cached_html]))))
          + sum_list (map snd (css_files (projr (loop init [app_js, cached_html]))))
          + sum_list (map snd (font_files (projr (loop init [app_js, cached_html]))))
          \<le> total_size (projr (loop init [app_js, cached_html])))"
  by (simp add: sample_defs run_defs)

subsection \<open>The page metrics\<close>

text \<open>
  C5. When the report has been printed without an exception, so that the run reaches the
  page metrics, and \<^verbatim>\<open>log.pages\<close> is empty, the run ends with an IndexError, and what it
  has printed by then is the whole report before the page metrics: the header, the total,
  the JavaScript, CSS and Font sections, the Google Fonts section if that list is not
  empty, and the font format counts, with the rows of every section.
\<close>

theorem empty_pages_index_error:
  assumes "har_log data = Some lg" and "log_entries lg = Some es" and "loop init es = Inr st"
    and "run_prints (report st) = (out, None)" and "log_pages lg = Some []"
  shows "analyze_har data = (out, Some IndexError)
       \<and> filter (\<lambda>l. \<not> is_row l) out =
           [Header, Rule, TotalSize (total_size st),
            SectionHead JavaScript (length (js_files st)) (sum_list (map snd (js_files st))),
            SectionHead CSS (length (css_files st)) (sum_list (map snd (css_files st))),
            SectionHead Font (length (font_files st)) (sum_list (map snd (font_files st)))]
           @ (if google_fonts st \<noteq> [] then [GoogleHead (length (google_fonts st))] else [])
           @ [FormatHead,
              Woff2Files (length (filter (\<lambda>f. str_in ''.woff2'' (fst f)) (font_files st))),
              TtfFiles (length (filter (\<lambda>f. str_in ''.ttf'' (fst f)) (font_files st)))]
       \<and> (\<forall>c. rows_of c out = padded (column_width c) (printed_pairs c st))"
proof -
  note printed = run_report_None [OF assms(4)]
  have "analyze_har data = (out, Some IndexError)"
    using analyze_har_reached [OF assms(1-3)] printed assms(5) by simp
  then show ?thesis
    using report_heads [of st] by (simp add: printed(1) rows_of_report_lines)
qed

text \<open>A document with three entries and no page.\<close>

theorem empty_pages_index_error_witness:
  "analyze_har (mk_har [app_js, gstatic_woff2, google_css2] []) =
     ([Header, Rule, TotalSize 1400,
       SectionHead JavaScript 1 100,
       Row JavaScript ''app.min.js                                   '' 100,
       SectionHead CSS 0 0,
       SectionHead Font 1 1000,
       Row Font ''abc.woff2                                    '' 1000,
       GoogleHead 1,
       Row GoogleFont
         ''https://fonts.googleapis.com/css2?family=Roboto                            '' 300,
       FormatHead, Woff2Files 1, TtfFiles 0],
      Some IndexError)"
proof -
  let ?st = "\<lparr>js_files = [(''app.min.js'', 100)], css_files = [],
          font_files = [(''abc.woff2'', 1000)],
          google_fonts = [(''https://fonts.googleapis.com/css2?family=Roboto'', 300)],
          total_size = 1400\<rparr>"
  let ?out = "[Header, Rule, TotalSize 1400,
       SectionHead JavaScript 1 100,
       Row JavaScript ''app.min.js                                   '' 100,
       SectionHead CSS 0 0,
       SectionHead Font 1 1000,
       Row Font ''abc.woff2                                    '' 1000,
       GoogleHead 1,
       Row GoogleFont
         ''https://fonts.googleapis.com/css2?family=Roboto                            '' 300,
       FormatHead, Woff2Files 1, TtfFiles 0]"
  have run: "loop init [app_js, gstatic_woff2, google_css2] = Inr ?st"
    by (simp add: sample_defs run_defs)
  have rep: "run_prints (report ?st) = (?out, None)"
    by code_simp
  have lg: "har_log (mk_har [app_js, gstatic_woff2, google_css2] []) =
      Some \<lparr>log_entries = Some [app_js, gstatic_woff2, google_css2], log_pages = Some []\<rparr>"
    by (simp add: mk_har_def)
  have es: "log_entries \<lparr>log_entries = Some [app_js, gstatic_woff2, google_css2],
      log_pages = Some []\<rparr> = Some [app_js, gstatic_woff2, google_css2]"
    by simp
  have ps: "log_pages \<lparr>log_entries = Some [app_js, gstatic_woff2, google_css2],
      log_pages = Some []\<rparr> = Some []"
    by simp
  show ?thesis
    using empty_pages_index_error [OF lg es run rep ps] by (rule conjunct1)
qed

text \<open>
  C6, as amended. \<^verbatim>\<open>pageTimings\<close> is a required key of \<^verbatim>\<open>pages[0]\<close>: when it is absent the
  run ends with a KeyError for it, after the report before the page metrics and before
  any timing line. Only \<^verbatim>\<open>onContentLoad\<close> and \<^verbatim>\<open>onLoad\<close> inside it are optional: when
  \<^verbatim>\<open>pageTimings\<close> is present and its timings can be divided by 1000 as floats, the run
  ends normally and both timing lines are printed, an absent field counting as 0. A
  timing too large for that ends the run with an OverflowError before the heading of the
  page metrics.
\<close>

theorem page_timings_required:
  assumes "har_log data = Some lg" and "log_entries lg = Some es" and "loop init es = Inr st"
    and "run_prints (report st) = (out, None)" and "log_pages lg = Some (p # ps)"
  shows "(page_pageTimings p = None
            \<longrightarrow> analyze_har data = (out, Some (KeyError ''pageTimings'')))
       \<and> (\<forall>pt. page_pageTimings p = Some pt
              \<and> \<bar>timing (pt_onContentLoad pt)\<bar> < 1000 * (2 ^ 1024 - 2 ^ 970)
              \<and> \<bar>timing (pt_onLoad pt)\<bar> < 1000 * (2 ^ 1024 - 2 ^ 970)
            \<longrightarrow> analyze_har data =
                  (out @ [MetricsHead, DomContentLoaded (timing (pt_onContentLoad pt)),
                          PageLoadComplete (timing (pt_onLoad pt))],
                   None))
       \<and> (\<forall>pt. page_pageTimings p = Some pt
              \<and> (1000 * (2 ^ 1024 - 2 ^ 970) \<le> \<bar>timing (pt_onContentLoad pt)\<bar>
                   \<or> 1000 * (2 ^ 1024 - 2 ^ 970) \<le> \<bar>timing (pt_onLoad pt)\<bar>)
            \<longrightarrow> analyze_har data = (out, Some OverflowError))"
proof -
  note printed = run_report_None [OF assms(4)]
  show ?thesis
    using analyze_har_reached [OF assms(1-3)] printed assms(5)
    by (auto simp: metrics_cases)
qed

text \<open>
  A page without \<^verbatim>\<open>pageTimings\<close>, a page whose timings have \<^verbatim>\<open>onLoad\<close> only, and a page
  whose \<^verbatim>\<open>onLoad\<close> is \<open>10 ^ 315\<close>.
\<close>

theorem page_timings_required_witness:
  "analyze_har (mk_har [] [\<lparr>page_pageTimings = None\<rparr>]) =
     ([Header, Rule, TotalSize 0, SectionHead JavaScript 0 0, SectionHead CSS 0 0,
       SectionHead Font 0 0, FormatHead, Woff2Files 0, TtfFiles 0],
      Some (KeyError ''pageTimings''))
   \<and> analyze_har
       (mk_har [] [\<lparr>page_pageTimings = Some \<lparr>pt_onContentLoad = None, pt_onLoad = Some 2500\<rparr>\<rparr>]) =
     ([Header, Rule, TotalSize 0, SectionHead JavaScript 0 0, SectionHead CSS 0 0,
       SectionHead Font 0 0, FormatHead, Woff2Files 0, TtfFiles 0,
       MetricsHead, DomContentLoaded 0, PageLoadComplete 2500],
      None)
   \<and> analyze_har
       (mk_har [] [\<lparr>page_pageTimings =
                     Some \<lparr>pt_onContentLoad = None, pt_onLoad = Some (10 ^ 315)\<rparr>\<rparr>]) =
     ([Header, Rule, TotalSize 0, SectionHead JavaScript 0 0, SectionHead CSS 0 0,
       SectionHead Font 0 0, FormatHead, Woff2Files 0, TtfFiles 0],
      Some OverflowError)"
proof -
  let ?out = "[Header, Rule, TotalSize 0, SectionHead JavaScript 0 0, SectionHead CSS 0 0,
       SectionHead Font 0 0, FormatHead, Woff2Files 0, TtfFiles 0]"
  have run: "loop init [] = Inr init" by simp
  have rep: "run_prints (report init) = (?out, None)"
    by code_simp
  have lg: "har_log (mk_har [] [p]) = Some \<lparr>log_entries = Some [], log_pages = Some [p]\<rparr>" for p
    by (simp add: mk_har_def)
  have es: "log_entries \<lparr>log_entries = Some [], log_pages = Some [p]\<rparr> = Some []" for p :: page
    by simp
  have ps: "log_pages \<lparr>log_entries = Some [], log_pages = Some [p]\<rparr> = Some [p]" for p :: page
    by simp
  have small: "\<bar>2500 :: int\<bar> < 1000 * (2 ^ 1024 - 2 ^ 970)"
    and "\<bar>0 :: int\<bar> < 1000 * (2 ^ 1024 - 2 ^ 970)"
    and large: "1000 * (2 ^ 1024 - 2 ^ 970) \<le> \<bar>10 ^ 315 :: int\<bar>"
    by simp_all
  show ?thesis
    using page_timings_required [OF lg es run rep ps, of "\<lparr>page_pageTimings = None\<rparr>"]
      page_timings_required [OF lg es run rep ps,
        of "\<lparr>page_pageTimings = Some \<lparr>pt_onContentLoad = None, pt_onLoad = Some 2500\<rparr>\<rparr>"]
      page_timings_required [OF lg es run rep ps,
        of "\<lparr>page_pageTimings = Some \<lparr>pt_onContentLoad = None, pt_onLoad = Some (10 ^ 315)\<rparr>\<rparr>"]
    by (simp add: timing_def)
qed

text \<open>
  C6 as stated fails: with one page that has no \<^verbatim>\<open>pageTimings\<close> the run ends with a
  KeyError and prints no timing line.
\<close>

theorem missing_page_timings_counterexample:
  "analyze_har (mk_har [] [\<lparr>page_pageTimings = None\<rparr>]) =
     ([Header, Rule, TotalSize 0, SectionHead JavaScript 0 0, SectionHead CSS 0 0,
       SectionHead Font 0 0, FormatHead, Woff2Files 0, TtfFiles 0],
      Some (KeyError ''pageTimings''))"
  by code_simp

subsection \<open>The order of the rows\<close>

lemma snd_padded: "map snd (padded w rows) = map snd rows"
  by (induction rows) (auto simp: padded_def)

lemma sorted_printed_pairs:
  "c \<noteq> GoogleFont \<Longrightarrow> sorted_wrt (\<ge>) (map snd (printed_pairs c st))"
  by (cases c)
    (simp_all add: printed_pairs_def take_map [symmetric] sorted_wrt_take sorted_sort_desc
      del: take_map)

lemma sorted_rows_prefix:
  assumes "c \<noteq> GoogleFont"
  shows "sorted_wrt (\<ge>) (map snd (rows_of c (takeWhile fits (report_lines st))))"
proof -
  obtain rest where "rows_of c (report_lines st)
      = rows_of c (takeWhile fits (report_lines st)) @ rest"
    using rows_of_takeWhile [of c fits "report_lines st"] by (auto elim: prefixE)
  then have "map snd (rows_of c (report_lines st))
      = map snd (rows_of c (takeWhile fits (report_lines st))) @ map snd rest"
    by simp
  then have "map snd (printed_pairs c st)
      = map snd (rows_of c (takeWhile fits (report_lines st))) @ map snd rest"
    by (simp only: rows_of_report_lines snd_padded)
  then show ?thesis
    using sorted_printed_pairs [OF assms, of st] by (simp add: sorted_wrt_append)
qed

text \<open>
  C7. In every run, the sizes of the printed JavaScript rows, of the printed CSS rows and
  of the printed Font rows are each in non-increasing order.
\<close>

theorem printed_sizes_descend:
  "sorted_wrt (\<ge>) (map snd (rows_of JavaScript (fst (analyze_har data))))
   \<and> sorted_wrt (\<ge>) (map snd (rows_of CSS (fst (analyze_har data))))
   \<and> sorted_wrt (\<ge>) (map snd (rows_of Font (fst (analyze_har data))))"
  using rows_of_analyze_har [of JavaScript data] rows_of_analyze_har [of CSS data]
    rows_of_analyze_har [of Font data] sorted_rows_prefix [of JavaScript]
    sorted_rows_prefix [of CSS] sorted_rows_prefix [of Font]
  by auto

text \<open>Scripts captured with sizes 100, 2048 and 900 are printed as 2048, 900, 100.\<close>

theorem printed_sizes_descend_witness:
  "map snd (rows_of JavaScript (fst (analyze_har (mk_har [app_js, long_js, vendor_js] []))))
     = [2048, 900, 100]
   \<and> sorted_wrt (\<ge>) [2048, 900, 100 :: int]"
proof -
  have rows: "map snd (rows_of JavaScript
      (fst (analyze_har (mk_har [app_js, long_js, vendor_js] [])))) = [2048, 900, 100]"
    by code_simp
  show ?thesis
    using printed_sizes_descend [of "mk_har [app_js, long_js, vendor_js] []"]
    by (simp add: rows)
qed

subsection \<open>The primary categories\<close>

text \<open>
  C8. After a loop that ends without an exception, the JavaScript list holds the pairs of
  the entries whose primary category is JavaScript, the CSS list those of CSS, the Font
  list those of Font, each in the order of the entries; the primary category is one value
  for an entry, found by first match in the order JavaScript, CSS, Font, so an entry is in
  at most one of the three lists. A URL with both \<^verbatim>\<open>.js\<close> and \<^verbatim>\<open>.css\<close> is JavaScript.
\<close>

theorem primary_buckets:
  assumes "loop init es = Inr st"
  shows "js_files st =
           map (\<lambda>e. (display_name (url_of e), size_of e))
             (filter (\<lambda>e. primary_of e = Some JavaScript) es)
       \<and> css_files st =
           map (\<lambda>e. (display_name (url_of e), size_of e))
             (filter (\<lambda>e. primary_of e = Some CSS) es)
       \<and> font_files st =
           map (\<lambda>e. (display_name (url_of e), size_of e))
             (filter (\<lambda>e. primary_of e = Some Font) es)
       \<and> (\<forall>u m. str_in ''.js'' u \<and> str_in ''.css'' u
              \<longrightarrow> primary_category u m = Some JavaScript)"
  using loop_init(1,2,3) [OF assms] by (simp add: bucket_of_def primary_category_def)

text \<open>
  Six entries: a URL with both \<^verbatim>\<open>.js\<close> and \<^verbatim>\<open>.css\<close>, a script and a style sheet known
  by their MIME types only, a style sheet, a font, and a page of no category.
\<close>

theorem primary_buckets_witness:
  "loop init [app_js_css, bundle_js, site_css, google_style, icons_ttf, cached_html] =
     Inr \<lparr>js_files = [(''app.js.css'', 40), (''bundle'', 70)],
          css_files = [(''site.css'', 50), (''css2?family=Roboto'', 80)],
          font_files = [(''icons.ttf'', 60)], google_fonts = [], total_size = - 200\<rparr>
   \<and> map (\<lambda>e. (display_name (url_of e), size_of e))
         (filter (\<lambda>e. primary_of e = Some JavaScript)
            [app_js_css, bundle_js, site_css, google_style, icons_ttf, cached_html])
       = [(''app.js.css'', 40), (''bundle'', 70)]
   \<and> map (\<lambda>e. (display_name (url_of e), size_of e))
         (filter (\<lambda>e. primary_of e = Some CSS)
            [app_js_css, bundle_js, site_css, google_style, icons_ttf, cached_html])
       = [(''site.css'', 50), (''css2?family=Roboto'', 80)]
   \<and> map (\<lambda>e. (display_name (url_of e), size_of e))
         (filter (\<lambda>e. primary_of e = Some Font)
            [app_js_css, bundle_js, site_css, google_style, icons_ttf, cached_html])
       = [(''icons.ttf'', 60)]
   \<and> primary_of bundle_js = Some JavaScript
   \<and> primary_of google_style = Some CSS
   \<and> primary_category ''https://cdn.example.com/app.js.css'' [] = Some JavaScript"
proof -
  have run: "loop init [app_js_css, bundle_js, site_css, google_style, icons_ttf, cached_html] =
     Inr \<lparr>js_files = [(''app.js.css'', 40), (''bundle'', 70)],
          css_files = [(''site.css'', 50), (''css2?family=Roboto'', 80)],
          font_files = [(''icons.ttf'', 60)], google_fonts = [], total_size = - 200\<rparr>"
    by (simp add: sample_defs run_defs)
  have both: "str_in ''.js'' ''https://cdn.example.com/app.js.css''
            \<and> str_in ''.css'' ''https://cdn.example.com/app.js.css''"
    by simp
  have mime: "primary_of bundle_js = Some JavaScript \<and> primary_of google_style = Some CSS"
    by (simp add: primary_of_def url_of_def mime_of_def response_of_def primary_category_def
        sample_defs)
  show ?thesis
    using primary_buckets [OF run] run both mime by simp
qed

subsection \<open>The Google Fonts rows\<close>

text \<open>
  C9. In a run that reaches the report, the printed Google Fonts rows are the first five
  pairs of the Google Fonts list in the order of the entries, each URL filled to 75
  characters; the list is not sorted. They are all printed when the run does not end
  with an OverflowError, and the first of them, in the same order, when it does.
\<close>

theorem google_rows_in_capture_order:
  assumes "har_log data = Some lg" and "log_entries lg = Some es" and "loop init es = Inr st"
  shows "prefix (rows_of GoogleFont (fst (analyze_har data)))
           (padded 75
              (take 5 (map (\<lambda>e. (take 80 (url_of e), size_of e))
                         (filter (\<lambda>e. primary_of e = None \<and> is_google (url_of e)) es))))
       \<and> (snd (analyze_har data) \<noteq> Some OverflowError
            \<longrightarrow> rows_of GoogleFont (fst (analyze_har data)) =
                  padded 75
                    (take 5 (map (\<lambda>e. (take 80 (url_of e), size_of e))
                               (filter (\<lambda>e. primary_of e = None \<and> is_google (url_of e)) es))))"
proof -
  have pairs: "padded (column_width GoogleFont) (printed_pairs GoogleFont st) =
      padded 75 (take 5 (map (\<lambda>e. (take 80 (url_of e), size_of e))
                         (filter (\<lambda>e. primary_of e = None \<and> is_google (url_of e)) es)))"
    using loop_init(4) [OF assms(3)]
    by (simp add: column_width_def printed_pairs_def google_bucket_def)
  have rows: "rows_of GoogleFont (fst (analyze_har data))
      = rows_of GoogleFont (takeWhile fits (report_lines st))"
    by (rule rows_of_analyze_har_report [OF assms])
  have pre: "prefix (rows_of GoogleFont (fst (analyze_har data)))
      (padded (column_width GoogleFont) (printed_pairs GoogleFont st))"
    unfolding rows using rows_of_takeWhile [of GoogleFont fits "report_lines st"]
    by (simp only: rows_of_report_lines)
  have whole: "rows_of GoogleFont (fst (analyze_har data))
      = padded (column_width GoogleFont) (printed_pairs GoogleFont st)"
    if "snd (analyze_har data) \<noteq> Some OverflowError"
  proof -
    have "list_all fits (report_lines st)"
      by (rule no_overflow_fits [OF assms that])
    then have "takeWhile fits (report_lines st) = report_lines st"
      by (simp add: list_all_iff)
    then show ?thesis
      by (simp only: rows rows_of_report_lines)
  qed
  show ?thesis
    using pre whole unfolding pairs by blast
qed

text \<open>Requests of 300 and then 700 bytes are printed in that order, the smaller first.\<close>

theorem google_rows_in_capture_order_witness:
  "rows_of GoogleFont
     (fst (analyze_har (mk_har [google_css2, gstatic_woff2, google_icon] []))) =
     [(''https://fonts.googleapis.com/css2?family=Roboto                            '', 300),
      (''https://fonts.googleapis.com/icon?family=Material+Icons                    '', 700)]
   \<and> padded 75 (take 5 (map (\<lambda>e. (take 80 (url_of e), size_of e))
        (filter (\<lambda>e. primary_of e = None \<and> is_google (url_of e))
           [google_css2, gstatic_woff2, google_icon]))) =
     [(''https://fonts.googleapis.com/css2?family=Roboto                            '', 300),
      (''https://fonts.googleapis.com/icon?family=Material+Icons                    '', 700)]"
proof -
  let ?es = "[google_css2, gstatic_woff2, google_icon]"
  have run: "loop init ?es =
     Inr \<lparr>js_files = [], css_files = [], font_files = [(''abc.woff2'', 1000)],
          google_fonts = [(''https://fonts.googleapis.com/css2?family=Roboto'', 300),
                          (''https://fonts.googleapis.com/icon?family=Material+Icons'', 700)],
          total_size = 2000\<rparr>"
    by (simp add: sample_defs run_defs)
  have lg: "har_log (mk_har ?es []) = Some \<lparr>log_entries = Some ?es, log_pages = Some []\<rparr>"
    by (simp add: mk_har_def)
  have es: "log_entries \<lparr>log_entries = Some ?es, log_pages = Some []\<rparr> = Some ?es"
    by simp
  have err: "snd (analyze_har (mk_har ?es [])) \<noteq> Some OverflowError"
    by code_simp
  have rows: "rows_of GoogleFont (fst (analyze_har (mk_har ?es []))) =
     [(''https://fonts.googleapis.com/css2?family=Roboto                            '', 300),
      (''https://fonts.googleapis.com/icon?family=Material+Icons                    '', 700)]"
    by code_simp
  from google_rows_in_capture_order [OF lg es run] err
  have "rows_of GoogleFont (fst (analyze_har (mk_har ?es []))) =
      padded 75 (take 5 (map (\<lambda>e. (take 80 (url_of e), size_of e))
        (filter (\<lambda>e. primary_of e = None \<and> is_google (url_of e)) ?es)))"
    by blast
  with rows show ?thesis by (simp only: simp_thms)
qed

subsection \<open>Negative sizes\<close>

text \<open>
  C10. When the body size is negative and the content has a size, that size is recorded
  as it is, negative or not: it is added to the total and it is the size of the pair
  appended to the list the entry is filed in. No size is raised to 0.
\<close>

theorem negative_fallback:
  assumes "get_url e = Inr u" and "get_response e = Inr rs"
    and "resp_bodySize rs = Some b" and "b < 0"
    and "resp_content rs = Some c" and "cont_size c = Some s"
  shows "\<exists>st'. process_entry st e = Inr st'
           \<and> total_size st' = total_size st + s
           \<and> (primary_of e = Some JavaScript
                \<longrightarrow> js_files st' = js_files st @ [(display_name u, s)])
           \<and> (primary_of e = Some CSS
                \<longrightarrow> css_files st' = css_files st @ [(display_name u, s)])
           \<and> (primary_of e = Some Font
                \<longrightarrow> font_files st' = font_files st @ [(display_name u, s)])
           \<and> (primary_of e = None \<and> is_google u
                \<longrightarrow> google_fonts st' = google_fonts st @ [(take 80 u, s)])"
proof -
  have size: "get_size rs = s"
    using assms(3-6) by (simp add: get_size_def get_content_def)
  have step: "process_entry st e = Inr (categorize st u (get_mime_type rs) s)"
    using assms(1,2) size by (simp add: process_entry_def)
  have prim: "primary_of e = primary_category u (get_mime_type rs)"
    using assms(1,2) by (simp add: primary_of_def url_of_get_url mime_of_get_response)
  show ?thesis
    by (simp add: step prim categorize_fields)
qed

text \<open>One entry for each of the four lists, each with two negative sizes.\<close>

theorem negative_fallback_witness:
  "(\<exists>st'. process_entry init cached_js = Inr st'
         \<and> total_size st' = - 300 \<and> js_files st' = [(''old.js'', - 300)])
   \<and> (\<exists>st'. process_entry init cached_css = Inr st'
         \<and> total_size st' = - 20 \<and> css_files st' = [(''old.css'', - 20)])
   \<and> (\<exists>st'. process_entry init cached_font = Inr st'
         \<and> total_size st' = - 30 \<and> font_files st' = [(''old.otf'', - 30)])
   \<and> (\<exists>st'. process_entry init cached_google = Inr st'
         \<and> total_size st' = - 40
         \<and> google_fonts st' = [(''https://fonts.googleapis.com/css2?family=Lato'', - 40)])"
proof -
  have url: "get_url (mk_entry u b c) = Inr u" for u b c
    by (simp add: mk_entry_def get_url_def)
  have rs: "get_response (mk_entry u b c) = Inr \<lparr>resp_bodySize = b, resp_content = c\<rparr>" for u b c
    by (simp add: mk_entry_def get_response_def)
  have prim: "primary_of (mk_entry u b (Some (sized n))) = primary_category u []" for u b n
    by (simp add: primary_of_def url_of_get_url [OF url] mime_of_get_response [OF rs]
        get_mime_type_def get_content_def sized_def)
  have fallback: "\<exists>st'. process_entry init (mk_entry u (Some (- 1)) (Some (sized n))) = Inr st'
           \<and> total_size st' = n
           \<and> (primary_category u [] = Some JavaScript \<longrightarrow> js_files st' = [(display_name u, n)])
           \<and> (primary_category u [] = Some CSS \<longrightarrow> css_files st' = [(display_name u, n)])
           \<and> (primary_category u [] = Some Font \<longrightarrow> font_files st' = [(display_name u, n)])
           \<and> (primary_category u [] = None \<and> is_google u
                \<longrightarrow> google_fonts st' = [(take 80 u, n)])" for u n
  proof -
    have b: "resp_bodySize \<lparr>resp_bodySize = Some (- 1), resp_content = Some (sized n)\<rparr>
        = Some (- 1)"
      by simp
    have neg: "(- 1 :: int) < 0"
      by simp
    have c: "resp_content \<lparr>resp_bodySize = Some (- 1), resp_content = Some (sized n)\<rparr>
        = Some (sized n)"
      by simp
    have n: "cont_size (sized n) = Some n"
      by (simp add: sized_def)
    show ?thesis
      using negative_fallback [OF url rs b neg c n, of init]
      by (simp only: prim) (simp add: init_def)
  qed
  have js: "primary_category ''https://cdn.example.com/old.js'' [] = Some JavaScript"
    and css: "primary_category ''https://cdn.example.com/old.css'' [] = Some CSS"
    and font: "primary_category ''https://cdn.example.com/old.otf'' [] = Some Font"
    and google: "primary_category ''https://fonts.googleapis.com/css2?family=Lato'' [] = None
        \<and> is_google ''https://fonts.googleapis.com/css2?family=Lato''"
    by (simp_all add: primary_category_def is_google_def)
  have names: "display_name ''https://cdn.example.com/old.js'' = ''old.js''"
    "display_name ''https://cdn.example.com/old.css'' = ''old.css''"
    "display_name ''https://cdn.example.com/old.otf'' = ''old.otf''"
    by (simp_all add: display_name_def)
  show ?thesis
    using fallback [of "''https://cdn.example.com/old.js''" "- 300"]
      fallback [of "''https://cdn.example.com/old.css''" "- 20"]
      fallback [of "''https://cdn.example.com/old.otf''" "- 30"]
      fallback [of "''https://fonts.googleapis.com/css2?family=Lato''" "- 40"]
    unfolding cached_js_def cached_css_def cached_font_def cached_google_def
    by (simp only: js css font google names simp_thms take_all_iff) simp
qed

end
